theory Spec2Isabelle
  imports Complex_Main "HOL-Library.Multiset"
begin

section \<open>Data model\<close>

text \<open>
  JavaScript numbers are modelled as exact reals: rounding is not modelled. Where the
  source divides by a quantity that can be zero, the model writes out what the source
  does there (\<open>Infinity\<close>, \<open>NaN\<close>) or the theorems exclude the input by a hypothesis.

  A point is an object with the fields \<open>x\<close> and \<open>y\<close> (here \<open>px\<close>, \<open>py\<close>); the
  delivery points built by \<open>calculateOptimalRoute\<close> carry an \<open>orderId\<close> as well, and a
  point may carry an \<open>id\<close> (here \<open>ident\<close>). A field that is absent (\<open>undefined\<close>) is
  \<open>None\<close>. Identifiers are strings.
\<close>

record point =
  px :: real
  py :: real
  orderId :: "string option"
  ident :: "string option"

text \<open>
  The fields of an order that the optimisation service reads. \<open>getPriorityScore()\<close>
  reads the clock; its value is fixed for the duration of one call, as in the mocks of
  \<open>tests/optimization.test.js\<close>, and is the field \<open>priorityScore\<close> here.
\<close>

record order =
  order_id :: string
  weight :: real
  location :: point
  priority :: string
  status :: string
  priorityScore :: real

text \<open>The fields of a drone that the optimisation service reads.\<close>

record drone =
  drone_id :: string
  capacity :: real
  speed :: real
  drone_status :: string
  batteryLevel :: real
  drone_location :: point

text \<open>
  The objects pushed by \<open>assignOrderGroupsToDrones\<close> are \<open>{drone, orders}\<close>: they
  have no \<open>route\<close> property, so reading \<open>assignment.route\<close> gives \<open>undefined\<close>.
\<close>

record assignment =
  a_drone :: drone
  a_orders :: "order list"
  a_route :: "point list option"

record optimizedRoute =
  r_drone :: drone
  r_orders :: "order list"
  r_route :: "point list"
  estimatedTime :: real
  estimatedBattery :: real

datatype error = TypeError | ReferenceError

text \<open>
  A number that may be \<open>Infinity\<close>: the result of dividing a positive number by zero.
\<close>

datatype jsnumber = Finite real | PosInfinity

record optimizationStats =
  totalRoutes :: nat
  totalOrders :: nat
  totalDistance :: real
  averageTime :: real
  efficiency :: jsnumber
  utilization :: real

datatype optimizationResult =
    Failure string
  | Fault error
  | Success "optimizedRoute list" optimizationStats string

section \<open>Random draws\<close>

text \<open>
  \<open>Math.random()\<close> is a draw from an explicit sequence: the state is the sequence of the
  draws still to come. \<open>Math.random()\<close> returns a number in \<open>[0, 1)\<close>, which
  \<open>validRandom\<close> says of every draw.
\<close>

type_synonym rng = "nat \<Rightarrow> real"

definition validRandom :: "rng \<Rightarrow> bool" where
  "validRandom r = (\<forall>n. 0 \<le> r n \<and> r n < 1)"

definition random :: "rng \<Rightarrow> real \<times> rng" where
  "random r = (r 0, \<lambda>n. r (Suc n))"

text \<open>\<open>Math.floor(Math.random() * n)\<close>\<close>

definition randomIndex :: "nat \<Rightarrow> rng \<Rightarrow> nat \<times> rng" where
  "randomIndex n r = (case random r of (u, r') \<Rightarrow> (nat \<lfloor>u * real n\<rfloor>, r'))"

text \<open>\<open>[a[i], a[j]] = [a[j], a[i]]\<close>: both reads happen before the writes.\<close>

definition swap :: "nat \<Rightarrow> nat \<Rightarrow> 'a list \<Rightarrow> 'a list" where
  "swap i j a = a[i := a ! j, j := a ! i]"

section \<open>Geometry\<close>

definition calculateDistance :: "point \<Rightarrow> point \<Rightarrow> real" where
  "calculateDistance point1 point2 =
     (let dx = px point2 - px point1;
          dy = py point2 - py point1
      in sqrt (dx * dx + dy * dy))"

section \<open>Route construction: nearest neighbour\<close>

text \<open>
  The inner \<open>for\<close> loop of \<open>nearestNeighborRoute\<close>: the state is
  \<open>(nearestIndex, nearestDistance)\<close>, started at index 0 and updated on a strictly
  smaller distance only.
\<close>

definition scanNearest :: "point \<Rightarrow> point list \<Rightarrow> nat \<times> real" where
  "scanNearest currentPoint unvisited =
     fold (\<lambda>i (nearestIndex, nearestDistance).
             let distance = calculateDistance currentPoint (unvisited ! i)
             in if distance < nearestDistance then (i, distance)
                else (nearestIndex, nearestDistance))
          [1 ..< length unvisited]
          (0, calculateDistance currentPoint (unvisited ! 0))"

text \<open>\<open>unvisited.splice(nearestIndex, 1)\<close>: the array without that index.\<close>

definition splice1 :: "nat \<Rightarrow> 'a list \<Rightarrow> 'a list" where
  "splice1 i xs = take i xs @ drop (Suc i) xs"

text \<open>The \<open>while (unvisited.length > 0)\<close> loop, on \<open>(route, unvisited, currentPoint)\<close>.\<close>

function nearestNeighborLoop :: "point list \<Rightarrow> point list \<Rightarrow> point \<Rightarrow> point list" where
  "nearestNeighborLoop route unvisited currentPoint =
     (if unvisited = [] then route
      else let nearestIndex = fst (scanNearest currentPoint unvisited);
               nearestPoint = unvisited ! nearestIndex
           in nearestNeighborLoop (route @ [nearestPoint]) (splice1 nearestIndex unvisited)
                nearestPoint)"
  by pat_completeness auto
termination
proof (relation "measure (\<lambda>(route, unvisited, currentPoint). length unvisited)")
  show "wf (measure (\<lambda>(route, unvisited, currentPoint). length unvisited))"
    by simp
next
  fix route :: "point list" and unvisited :: "point list" and currentPoint :: point
    and nearestIndex :: nat and nearestPoint :: point
  assume ne: "unvisited \<noteq> []"
    and ni: "nearestIndex = fst (scanNearest currentPoint unvisited)"
  have bound: "fst (fold (\<lambda>i (nearestIndex, nearestDistance).
             let distance = calculateDistance currentPoint (unvisited ! i)
             in if distance < nearestDistance then (i, distance)
                else (nearestIndex, nearestDistance)) js s) < length unvisited"
    if "\<forall>j \<in> set js. j < length unvisited" and "fst s < length unvisited"
    for js s
    using that
    by (induction js arbitrary: s) (auto simp: Let_def split: prod.splits)
  have "nearestIndex < length unvisited"
    unfolding ni scanNearest_def using ne by (intro bound) auto
  then show "((route @ [nearestPoint], splice1 nearestIndex unvisited, nearestPoint),
              (route, unvisited, currentPoint))
             \<in> measure (\<lambda>(route, unvisited, currentPoint). length unvisited)"
    by (simp add: splice1_def)
qed

declare nearestNeighborLoop.simps [simp del]

definition nearestNeighborRoute :: "point list \<Rightarrow> point \<Rightarrow> point list" where
  "nearestNeighborRoute points startPoint =
     (if points = [] then [startPoint]
      else nearestNeighborLoop [startPoint] points startPoint @ [startPoint])"

text \<open>
  The specification of the nearest-neighbour heuristic, in its own words: the index of
  the first occurrence of the minimum distance, and the visiting order obtained by
  moving that point from the unvisited points to the route, once per input point.
\<close>

definition firstMinIndex :: "real list \<Rightarrow> nat" where
  "firstMinIndex ds = length (takeWhile (\<lambda>d. d \<noteq> Min (set ds)) ds)"

primrec greedyVisit :: "nat \<Rightarrow> point \<Rightarrow> point list \<Rightarrow> point list" where
  "greedyVisit 0 currentPoint unvisited = []"
| "greedyVisit (Suc n) currentPoint unvisited =
     (let i = firstMinIndex (map (calculateDistance currentPoint) unvisited);
          nearestPoint = unvisited ! i
      in nearestPoint # greedyVisit n nearestPoint (splice1 i unvisited))"

section \<open>Task grouping\<close>

text \<open>
  \<open>array.sort((a, b) => key(b) - key(a))\<close>: a stable sort by descending key, in place.
\<close>

definition sortDescending :: "('a \<Rightarrow> real) \<Rightarrow> 'a list \<Rightarrow> 'a list" where
  "sortDescending key xs = sort_key (\<lambda>a. - key a) xs"

definition calculateGroupDistance :: "order list \<Rightarrow> real" where
  "calculateGroupDistance os =
     (if length os \<le> 1 then 0
      else fold (\<lambda>i totalDistance.
                   totalDistance + calculateDistance (location (os ! i)) (location (os ! (i + 1))))
                [0 ..< length os - 1] 0)"

text \<open>\<open>group.reduce((sum, o) => sum + o.weight, 0)\<close>\<close>

definition groupWeight :: "order list \<Rightarrow> real" where
  "groupWeight grp = foldl (\<lambda>sum order. sum + weight order) 0 grp"

text \<open>
  \<open>Math.max(...drones.map(d => d.capacity))\<close>; of no argument it is \<open>-Infinity\<close>,
  here \<open>None\<close>, and no sum of weights is below it.
\<close>

definition maxCapacity :: "drone list \<Rightarrow> real option" where
  "maxCapacity drones = (if drones = [] then None else Some (Max (set (map capacity drones))))"

definition withinCapacity :: "real \<Rightarrow> real option \<Rightarrow> bool" where
  "withinCapacity w maxCap = (case maxCap of None \<Rightarrow> False | Some m \<Rightarrow> w \<le> m)"

text \<open>
  The inner loop over the groups built so far: the order is pushed onto the first group
  that accepts it; the result says whether one did (\<open>assigned\<close>).
\<close>

fun pushToFirstGroup :: "real option \<Rightarrow> order \<Rightarrow> order list list \<Rightarrow> order list list \<times> bool" where
  "pushToFirstGroup maxCap order [] = ([], False)"
| "pushToFirstGroup maxCap order (grp # groups) =
     (let totalWeight = groupWeight grp;
          totalDistance = calculateGroupDistance (grp @ [order])
      in if withinCapacity (totalWeight + weight order) maxCap \<and> totalDistance \<le> 50
         then ((grp @ [order]) # groups, True)
         else (case pushToFirstGroup maxCap order groups of
                 (groups', assigned) \<Rightarrow> (grp # groups', assigned)))"

fun groupLoop :: "real option \<Rightarrow> order list \<Rightarrow> order list list \<Rightarrow> order list list" where
  "groupLoop maxCap [] groups = groups"
| "groupLoop maxCap (order # sortedOrders) groups =
     (case pushToFirstGroup maxCap order groups of
        (groups', assigned) \<Rightarrow>
          groupLoop maxCap sortedOrders (if assigned then groups' else groups' @ [[order]]))"

text \<open>
  \<open>orders.sort(...)\<close> sorts the array it is called on and returns that same array: the
  second component of the result is the content of the caller's \<open>orders\<close> array after
  the call.
\<close>

definition groupOrdersForOptimalDelivery ::
    "order list \<Rightarrow> drone list \<Rightarrow> order list list \<times> order list" where
  "groupOrdersForOptimalDelivery os drones =
     (let sortedOrders = sortDescending priorityScore os;
          maxCap = maxCapacity drones
      in (groupLoop maxCap sortedOrders [], sortedOrders))"

section \<open>Assignment of groups to drones\<close>

text \<open>\<open>calculateCenterLocation\<close>, on the locations of the orders it is given.\<close>

definition calculateCenterLocation :: "point list \<Rightarrow> point" where
  "calculateCenterLocation locations =
     (let totalX = foldl (\<lambda>sum p. sum + px p) 0 locations;
          totalY = foldl (\<lambda>sum p. sum + py p) 0 locations
      in \<lparr>px = totalX / real (length locations), py = totalY / real (length locations),
          orderId = None, ident = None\<rparr>)"

text \<open>
  The loop of \<open>findBestDroneForGroup\<close>, on \<open>(bestDrone, bestScore)\<close>. For a drone of
  capacity 0 that passes the capacity test the total weight is at most 0, so
  \<open>totalWeight / drone.capacity\<close> is \<open>NaN\<close> or \<open>-Infinity\<close>, so is the score, and
  \<open>score > bestScore\<close> is false: the drone is passed over.
\<close>

fun findBestLoop :: "real \<Rightarrow> point \<Rightarrow> drone list \<Rightarrow> drone option \<times> real \<Rightarrow> drone option" where
  "findBestLoop totalWeight centerLocation [] (bestDrone, bestScore) = bestDrone"
| "findBestLoop totalWeight centerLocation (d # availableDrones) (bestDrone, bestScore) =
     (if capacity d < totalWeight
      then findBestLoop totalWeight centerLocation availableDrones (bestDrone, bestScore)
      else if capacity d = 0
      then findBestLoop totalWeight centerLocation availableDrones (bestDrone, bestScore)
      else let distance = calculateDistance (drone_location d) centerLocation;
               capacityUtilization = totalWeight / capacity d;
               batteryScore = batteryLevel d / 100;
               score = (1 / (distance + 1)) * (4 / 10) + capacityUtilization * (3 / 10)
                         + batteryScore * (3 / 10)
           in if score > bestScore
              then findBestLoop totalWeight centerLocation availableDrones (Some d, score)
              else findBestLoop totalWeight centerLocation availableDrones (bestDrone, bestScore))"

text \<open>
  For an empty group the centre is \<open>0 / 0\<close> in both coordinates, every distance and
  every score is \<open>NaN\<close>, and no drone is chosen.
\<close>

definition findBestDroneForGroup :: "order list \<Rightarrow> drone list \<Rightarrow> drone option" where
  "findBestDroneForGroup orderGroup availableDrones =
     (if orderGroup = [] then None
      else let totalWeight = groupWeight orderGroup;
               centerLocation = calculateCenterLocation (map location orderGroup)
           in findBestLoop totalWeight centerLocation availableDrones (None, - 1))"

text \<open>
  The mean priority score of a group, the key of the sort. For an empty group it is
  \<open>0 / 0\<close>, \<open>NaN\<close>, and the comparator gives the engine no order; the groups built
  by \<open>groupOrdersForOptimalDelivery\<close> are never empty.
\<close>

definition averagePriority :: "order list \<Rightarrow> real" where
  "averagePriority grp =
     foldl (\<lambda>sum order. sum + priorityScore order) 0 grp / real (length grp)"

text \<open>
  The loop over the sorted groups; \<open>usedDrones\<close> is the set of the identifiers of the
  drones assigned so far. A group for which no drone is found adds nothing to the result.
\<close>

fun assignLoop :: "order list list \<Rightarrow> drone list \<Rightarrow> string set \<Rightarrow> assignment list" where
  "assignLoop [] drones usedDrones = []"
| "assignLoop (grp # sortedGroups) drones usedDrones =
     (case findBestDroneForGroup grp (filter (\<lambda>d. drone_id d \<notin> usedDrones) drones) of
        None \<Rightarrow> assignLoop sortedGroups drones usedDrones
      | Some bestDrone \<Rightarrow>
          \<lparr>a_drone = bestDrone, a_orders = grp, a_route = None\<rparr>
            # assignLoop sortedGroups drones (insert (drone_id bestDrone) usedDrones))"

text \<open>
  The result is the list of assignments and nothing else; the second component is the
  content of the caller's \<open>orderGroups\<close> array after the call (sorted in place).
\<close>

definition assignOrderGroupsToDrones ::
    "order list list \<Rightarrow> drone list \<Rightarrow> assignment list \<times> order list list" where
  "assignOrderGroupsToDrones orderGroups drones =
     (let sortedGroups = sortDescending averagePriority orderGroups
      in (assignLoop sortedGroups drones {}, sortedGroups))"

section \<open>Route refinement\<close>

definition calculateRouteDistance :: "point list \<Rightarrow> point \<Rightarrow> real" where
  "calculateRouteDistance rt startPoint =
     (if rt = [] then 0
      else let d0 = calculateDistance startPoint (rt ! 0);
               d1 = fold (\<lambda>i totalDistance.
                            totalDistance + calculateDistance (rt ! i) (rt ! (i + 1)))
                         [0 ..< length rt - 1] d0
           in d1 + calculateDistance (rt ! (length rt - 1)) startPoint)"

text \<open>\<open>shuffleArray\<close>: \<open>for (i = array.length - 1; i > 0; i--)\<close>, by recursion on \<open>i\<close>.\<close>

primrec shuffleLoop :: "nat \<Rightarrow> 'a list \<Rightarrow> rng \<Rightarrow> 'a list \<times> rng" where
  "shuffleLoop 0 array r = (array, r)"
| "shuffleLoop (Suc i) array r =
     (case randomIndex (Suc i + 1) r of (j, r') \<Rightarrow> shuffleLoop i (swap (Suc i) j array) r')"

definition shuffleArray :: "'a list \<Rightarrow> rng \<Rightarrow> 'a list \<times> rng" where
  "shuffleArray array r = shuffleLoop (length array - 1) array r"

subsection \<open>Simulated annealing\<close>

record annealing =
  currentRoute :: "point list"
  currentDistance :: real
  bestRoute :: "point list"
  bestDistance :: real
  temperature :: real

text \<open>
  One iteration. The second operand of \<open>||\<close> draws a random number only when the first
  is false.
\<close>

definition annealingStep :: "point \<Rightarrow> annealing \<Rightarrow> rng \<Rightarrow> annealing \<times> rng" where
  "annealingStep startPoint s r =
     (case randomIndex (length (currentRoute s)) r of (i, r1) \<Rightarrow>
      case randomIndex (length (currentRoute s)) r1 of (j, r2) \<Rightarrow>
        let newRoute = swap i j (currentRoute s);
            newDistance = calculateRouteDistance newRoute startPoint;
            (accept, r3) =
              (if newDistance < currentDistance s then (True, r2)
               else case random r2 of (u, r') \<Rightarrow>
                      (u < exp ((currentDistance s - newDistance) / temperature s), r'));
            s1 = (if accept
                  then (if newDistance < bestDistance s
                        then s\<lparr>currentRoute := newRoute, currentDistance := newDistance,
                               bestRoute := newRoute, bestDistance := newDistance\<rparr>
                        else s\<lparr>currentRoute := newRoute, currentDistance := newDistance\<rparr>)
                  else s)
        in (s1\<lparr>temperature := temperature s1 * (995 / 1000)\<rparr>, r3))"

primrec annealingLoop :: "nat \<Rightarrow> point \<Rightarrow> annealing \<Rightarrow> rng \<Rightarrow> annealing \<times> rng" where
  "annealingLoop 0 startPoint s r = (s, r)"
| "annealingLoop (Suc n) startPoint s r =
     (case annealingStep startPoint s r of (s', r') \<Rightarrow> annealingLoop n startPoint s' r')"

definition simulatedAnnealingRoute ::
    "point list \<Rightarrow> point \<Rightarrow> nat \<Rightarrow> rng \<Rightarrow> point list \<times> rng" where
  "simulatedAnnealingRoute points startPoint maxIterations r =
     (if points = [] then ([startPoint], r)
      else case shuffleArray points r of (shuffled, r1) \<Rightarrow>
        let d = calculateRouteDistance shuffled startPoint;
            s0 = \<lparr>currentRoute = shuffled, currentDistance = d,
                  bestRoute = shuffled, bestDistance = d, temperature = 100\<rparr>
        in case annealingLoop maxIterations startPoint s0 r1 of (s, r2) \<Rightarrow>
             (startPoint # bestRoute s @ [startPoint], r2))"

subsection \<open>Genetic algorithm\<close>

primrec initializePopulation :: "nat \<Rightarrow> point list \<Rightarrow> rng \<Rightarrow> point list list \<times> rng" where
  "initializePopulation 0 points r = ([], r)"
| "initializePopulation (Suc n) points r =
     (case shuffleArray points r of (rt, r1) \<Rightarrow>
      case initializePopulation n points r1 of (population, r2) \<Rightarrow> (rt # population, r2))"

text \<open>
  \<open>tournamentSelection\<close>: the loop \<open>for (i = 1; i < 3; i++)\<close> draws two candidates.
\<close>

definition tournamentRound :: "real list \<Rightarrow> nat \<Rightarrow> nat \<Rightarrow> rng \<Rightarrow> nat \<times> rng" where
  "tournamentRound fitness populationLength bestIndex r =
     (case randomIndex populationLength r of (candidateIndex, r') \<Rightarrow>
        (if fitness ! candidateIndex > fitness ! bestIndex then candidateIndex else bestIndex, r'))"

definition tournamentSelection :: "point list list \<Rightarrow> real list \<Rightarrow> rng \<Rightarrow> point list \<times> rng" where
  "tournamentSelection population fitness r =
     (case randomIndex (length population) r of (b0, r0) \<Rightarrow>
      case tournamentRound fitness (length population) b0 r0 of (b1, r1) \<Rightarrow>
      case tournamentRound fitness (length population) b1 r1 of (b2, r2) \<Rightarrow>
        (population ! b2, r2))"

text \<open>\<open>p.orderId || p.id\<close>: the empty string and \<open>undefined\<close> are falsy.\<close>

definition pointKey :: "point \<Rightarrow> string option" where
  "pointKey p = (case orderId p of
                   None \<Rightarrow> ident p
                 | Some s \<Rightarrow> if s = [] then ident p else Some s)"

text \<open>
  The first loop of \<open>orderCrossover\<close> copies \<open>parent1[start..end]\<close> into the child and
  collects the keys; the child is \<open>new Array(length)\<close>, all holes (\<open>None\<close>) at first.
\<close>

definition copySegment ::
    "point list \<Rightarrow> nat \<Rightarrow> nat \<Rightarrow> point option list \<times> string option set" where
  "copySegment parent1 start end =
     fold (\<lambda>i (child, selected). (child[i := Some (parent1 ! i)], insert (pointKey (parent1 ! i)) selected))
          [start ..< Suc end]
          (replicate (length parent1) None, {})"

text \<open>
  The second loop, over the items \<open>parent2[i]\<close> for \<open>i\<close> from 0 (both parents have the
  same length in every call); the state is \<open>(child, childIndex)\<close>, and \<open>break\<close> returns
  the child.
\<close>

fun fillRemaining ::
    "nat \<Rightarrow> nat \<Rightarrow> nat \<Rightarrow> string option set \<Rightarrow> point list \<Rightarrow> point option list \<Rightarrow> nat
       \<Rightarrow> point option list" where
  "fillRemaining start end len selected [] child childIndex = child"
| "fillRemaining start end len selected (item # rest) child childIndex =
     (let childIndex1 = (if childIndex = start then end + 1 else childIndex)
      in if childIndex1 \<ge> len then child
         else if pointKey item \<in> selected
         then fillRemaining start end len selected rest child childIndex1
         else fillRemaining start end len selected rest (child[childIndex1 := Some item])
                (childIndex1 + 1))"

definition orderCrossover :: "point list \<Rightarrow> point list \<Rightarrow> rng \<Rightarrow> point option list \<times> rng" where
  "orderCrossover parent1 parent2 r =
     (case randomIndex (length parent1) r of (start, r1) \<Rightarrow>
      case randomIndex (length parent1 - start) r1 of (e, r2) \<Rightarrow>
        let end = e + start in
        case copySegment parent1 start end of (child, selected) \<Rightarrow>
          (fillRemaining start end (length parent1) selected parent2 child 0, r2))"

definition mutateRoute :: "'a list \<Rightarrow> rng \<Rightarrow> 'a list \<times> rng" where
  "mutateRoute rt r =
     (case randomIndex (length rt) r of (i, r1) \<Rightarrow>
      case randomIndex (length rt) r1 of (j, r2) \<Rightarrow> (swap i j rt, r2))"

text \<open>One pass of the inner loop: two parents, their child, and the mutation.\<close>

definition breedChild :: "point list list \<Rightarrow> real list \<Rightarrow> rng \<Rightarrow> point option list \<times> rng" where
  "breedChild population fitness r =
     (case tournamentSelection population fitness r of (parent1, r1) \<Rightarrow>
      case tournamentSelection population fitness r1 of (parent2, r2) \<Rightarrow>
      case orderCrossover parent1 parent2 r2 of (child, r3) \<Rightarrow>
      case random r3 of (u, r4) \<Rightarrow>
        if u < 1 / 10 then mutateRoute child r4 else (child, r4))"

primrec breedPopulation ::
    "nat \<Rightarrow> point list list \<Rightarrow> real list \<Rightarrow> rng \<Rightarrow> point option list list \<times> rng" where
  "breedPopulation 0 population fitness r = ([], r)"
| "breedPopulation (Suc n) population fitness r =
     (case breedChild population fitness r of (child, r1) \<Rightarrow>
      case breedPopulation n population fitness r1 of (children, r2) \<Rightarrow> (child # children, r2))"

text \<open>
  \<open>population.map(route => 1 / calculateRouteDistance(route, startPoint))\<close>. A route
  with a hole makes \<open>calculateDistance\<close> read \<open>x\<close> of \<open>undefined\<close>, a \<open>TypeError\<close>:
  \<open>calculateRouteDistance\<close> reads every element of a non-empty route. All routes of a
  population are permutations of one another, so a distance is zero only when all are,
  and then every fitness is \<open>Infinity\<close> (here \<open>1 / 0 = 0\<close>): in both readings no
  fitness is greater than another one and the maximum is at index 0.
\<close>

definition populationFitness :: "point option list list \<Rightarrow> point \<Rightarrow> error + real list" where
  "populationFitness population startPoint =
     (if list_ex (\<lambda>rt. None \<in> set rt) population then Inl TypeError
      else Inr (map (\<lambda>rt. 1 / calculateRouteDistance (map the rt) startPoint) population))"

primrec generationLoop ::
    "nat \<Rightarrow> nat \<Rightarrow> point \<Rightarrow> point option list list \<Rightarrow> rng
       \<Rightarrow> (error + point option list list) \<times> rng" where
  "generationLoop 0 populationSize startPoint population r = (Inr population, r)"
| "generationLoop (Suc n) populationSize startPoint population r =
     (case populationFitness population startPoint of
        Inl e \<Rightarrow> (Inl e, r)
      | Inr fitness \<Rightarrow>
          (case breedPopulation populationSize (map (map the) population) fitness r of
             (newPopulation, r') \<Rightarrow> generationLoop n populationSize startPoint newPopulation r'))"

text \<open>
  The end of \<open>geneticAlgorithmRoute\<close>: the fitness of the final population,
  \<open>fitness.indexOf(Math.max(...fitness))\<close>, and the best route between two copies of
  the start point.
\<close>

definition firstMaxIndex :: "real list \<Rightarrow> nat" where
  "firstMaxIndex fitness = length (takeWhile (\<lambda>f. f \<noteq> Max (set fitness)) fitness)"

definition bestOfPopulation ::
    "point option list list \<Rightarrow> point \<Rightarrow> error + point list" where
  "bestOfPopulation population startPoint =
     (case populationFitness population startPoint of
        Inl e \<Rightarrow> Inl e
      | Inr fitness \<Rightarrow>
          let bestIndex = firstMaxIndex fitness
          in Inr (startPoint # map the (population ! bestIndex) @ [startPoint]))"

definition geneticAlgorithmRoute ::
    "point list \<Rightarrow> point \<Rightarrow> nat \<Rightarrow> rng \<Rightarrow> (error + point list) \<times> rng" where
  "geneticAlgorithmRoute points startPoint maxGenerations r =
     (if points = [] then (Inr [startPoint], r)
      else if length points \<le> 3 then (Inr (nearestNeighborRoute points startPoint), r)
      else let populationSize = min 50 (length points * 4) in
        case initializePopulation populationSize points r of (population, r1) \<Rightarrow>
        case generationLoop maxGenerations populationSize startPoint
               (map (map Some) population) r1 of (evolved, r2) \<Rightarrow>
          (case evolved of
             Inl e \<Rightarrow> (Inl e, r2)
           | Inr finalPopulation \<Rightarrow> (bestOfPopulation finalPopulation startPoint, r2)))"

definition calculateOptimalRoute ::
    "order list \<Rightarrow> point \<Rightarrow> string \<Rightarrow> rng \<Rightarrow> (error + point list) \<times> rng" where
  "calculateOptimalRoute os startLocation algorithm r =
     (let deliveryPoints = map (\<lambda>order. (location order)\<lparr>orderId := Some (order_id order)\<rparr>) os
      in if algorithm = ''nearest_neighbor''
         then (Inr (nearestNeighborRoute deliveryPoints startLocation), r)
         else if algorithm = ''genetic_algorithm''
         then geneticAlgorithmRoute deliveryPoints startLocation 100 r
         else if algorithm = ''simulated_annealing''
         then (case simulatedAnnealingRoute deliveryPoints startLocation 1000 r of
                 (rt, r') \<Rightarrow> (Inr rt, r'))
         else (Inr (nearestNeighborRoute deliveryPoints startLocation), r))"

section \<open>Estimates and statistics\<close>

text \<open>
  \<open>if (!route || route.length === 0) return 0\<close>: an \<open>undefined\<close> route gives 0.
  \<open>route.slice(1, -1)\<close> drops the first and the last element. The travel time
  divides by the speed of the drone, which is positive for every drone of the registry.
\<close>

definition calculateRouteTime :: "point list option \<Rightarrow> drone \<Rightarrow> real" where
  "calculateRouteTime rt d =
     (case rt of
        None \<Rightarrow> 0
      | Some ps \<Rightarrow>
          if ps = [] then 0
          else let totalDistance = calculateRouteDistance (butlast (tl ps)) (ps ! 0);
                   travelTime = (totalDistance / speed d) * 60;
                   deliveryTime = (real (length ps) - 2) * 3;
                   loadingTime = 5
               in travelTime + deliveryTime + loadingTime)"

definition calculateBatteryConsumption :: "point list option \<Rightarrow> real" where
  "calculateBatteryConsumption rt =
     (case rt of
        None \<Rightarrow> 0
      | Some ps \<Rightarrow>
          if ps = [] then 0
          else let totalDistance = calculateRouteDistance (butlast (tl ps)) (ps ! 0)
               in totalDistance * 2)"

text \<open>\<open>Math.round\<close> rounds to the nearest integer, a half upwards.\<close>

definition mathRound :: "real \<Rightarrow> real" where
  "mathRound v = of_int \<lfloor>v + 1 / 2\<rfloor>"

text \<open>
  \<open>calculateOptimizationStats\<close>. The sum \<open>totalDistance\<close> starts at \<open>+0\<close>; when it is
  zero and there are orders, \<open>totalOrders / totalDistance\<close> is \<open>Infinity\<close>.
  \<open>totalTime / routes.length || 0\<close> is 0 for no route (\<open>NaN || 0\<close>).
\<close>

definition calculateOptimizationStats :: "optimizedRoute list \<Rightarrow> optimizationStats" where
  "calculateOptimizationStats routes =
     (let totalOrders = foldl (\<lambda>sum rt. sum + length (r_orders rt)) 0 routes;
          totalDistance = foldl (\<lambda>sum rt. sum + estimatedBattery rt / 2) 0 routes;
          totalTime = foldl (\<lambda>sum rt. sum + estimatedTime rt) 0 routes;
          averageTime = (if routes = [] then 0 else totalTime / real (length routes))
      in \<lparr>totalRoutes = length routes,
          totalOrders = totalOrders,
          totalDistance = mathRound (totalDistance * 100) / 100,
          averageTime = mathRound (averageTime * 100) / 100,
          efficiency =
            (if totalOrders > 0
             then (if totalDistance = 0 then PosInfinity
                   else Finite ((real totalOrders / totalDistance) * 100))
             else Finite 0),
          utilization =
            (if length routes > 0 then real totalOrders / real (length routes) else 0)\<rparr>)"

section \<open>The optimisation pass\<close>

text \<open>
  The message of the failure result (in Portuguese: there are no drones or orders
  available), one character per UTF-16 code unit; three of its letters carry an accent
  and are written by their code.
\<close>

definition noDronesOrOrders :: string where
  "noDronesOrOrders =
     ''N'' @ [CHR 0xE3] @ ''o h'' @ [CHR 0xE1] @ '' drones ou pedidos dispon'' @ [CHR 0xED] @ ''veis''"

text \<open>
  \<open>assignments.map(...)\<close>: the routes are computed in order, each on the random draws
  left by the one before. An exception leaves the \<open>map\<close>. The two estimates are
  computed from \<open>assignment.route\<close>.
\<close>

fun optimizeAssignments ::
    "assignment list \<Rightarrow> string \<Rightarrow> rng \<Rightarrow> (error + optimizedRoute list) \<times> rng" where
  "optimizeAssignments [] algorithm r = (Inr [], r)"
| "optimizeAssignments (a # assignments) algorithm r =
     (case calculateOptimalRoute (a_orders a) (drone_location (a_drone a)) algorithm r of
        (Inl e, r1) \<Rightarrow> (Inl e, r1)
      | (Inr rt, r1) \<Rightarrow>
          let entry = \<lparr>r_drone = a_drone a, r_orders = a_orders a, r_route = rt,
                       estimatedTime = calculateRouteTime (a_route a) (a_drone a),
                       estimatedBattery = calculateBatteryConsumption (a_route a)\<rparr>
          in (case optimizeAssignments assignments algorithm r1 of
                (Inl e, r2) \<Rightarrow> (Inl e, r2)
              | (Inr entries, r2) \<Rightarrow> (Inr (entry # entries), r2)))"

text \<open>
  \<open>optimizeDeliveryRoutes\<close>; \<open>algorithm\<close> is the option of that name, \<open>None\<close> when the
  caller gives none. The whole body is inside \<open>try\<close>: an exception becomes the result
  \<open>{success: false, error: ...}\<close>, here \<open>Fault\<close>.
\<close>

definition optimizeDeliveryRoutes ::
    "drone list \<Rightarrow> order list \<Rightarrow> string option \<Rightarrow> rng \<Rightarrow> optimizationResult" where
  "optimizeDeliveryRoutes drones os algorithmOption r =
     (let algorithm = (case algorithmOption of None \<Rightarrow> ''nearest_neighbor'' | Some a \<Rightarrow> a);
          availableDrones = filter (\<lambda>d. drone_status d = ''idle'' \<and> batteryLevel d > 20) drones;
          pendingOrders = filter (\<lambda>order. status order = ''pending'') os
      in if length availableDrones = 0 \<or> length pendingOrders = 0
         then Failure noDronesOrOrders
         else let orderGroups = fst (groupOrdersForOptimalDelivery pendingOrders availableDrones);
                  assignments = fst (assignOrderGroupsToDrones orderGroups availableDrones)
              in (case fst (optimizeAssignments assignments algorithm r) of
                    Inl e \<Rightarrow> Fault e
                  | Inr optimizedRoutes \<Rightarrow>
                      Success optimizedRoutes (calculateOptimizationStats optimizedRoutes)
                        algorithm))"

section \<open>Fleet sizing\<close>




section \<open>Base placement: k-means\<close>

text \<open>
  The initial centroids: \<open>k\<close> random input points. For an empty input
  \<open>points[0]\<close> is \<open>undefined\<close> and reading its \<open>x\<close> is a \<open>TypeError\<close>.
\<close>

primrec initialCentroids :: "nat \<Rightarrow> point list \<Rightarrow> rng \<Rightarrow> (error + point list) \<times> rng" where
  "initialCentroids 0 points r = (Inr [], r)"
| "initialCentroids (Suc n) points r =
     (case randomIndex (length points) r of (j, r1) \<Rightarrow>
        if j < length points
        then (case initialCentroids n points r1 of
                (Inl e, r2) \<Rightarrow> (Inl e, r2)
              | (Inr centroids, r2) \<Rightarrow>
                  (Inr (\<lparr>px = px (points ! j), py = py (points ! j), orderId = None, ident = None\<rparr>
                          # centroids), r2))
        else (Inl TypeError, r1))"

text \<open>The index of the nearest centroid, the lowest one on a tie.\<close>

definition nearestCentroid :: "point \<Rightarrow> point list \<Rightarrow> nat" where
  "nearestCentroid p centroids =
     fst (fold (\<lambda>i (nearest, nearestDistance).
                  let distance = calculateDistance p (centroids ! i)
                  in if distance < nearestDistance then (i, distance)
                     else (nearest, nearestDistance))
               [1 ..< length centroids]
               (0, calculateDistance p (centroids ! 0)))"

text \<open>
  \<open>clusters\<close> starts as \<open>k\<close> empty arrays; every point is pushed onto the cluster of
  its nearest centroid. With no centroid, \<open>centroids[0]\<close> is \<open>undefined\<close> and the
  first distance is a \<open>TypeError\<close>.
\<close>

definition assignClusters :: "nat \<Rightarrow> point list \<Rightarrow> point list \<Rightarrow> error + point list list" where
  "assignClusters k points centroids =
     (if points \<noteq> [] \<and> centroids = [] then Inl TypeError
      else Inr (fold (\<lambda>p clusters.
                        let c = nearestCentroid p centroids
                        in clusters[c := clusters ! c @ [p]])
                     points (replicate k [])))"

text \<open>The update loop, on \<open>(centroids, changed)\<close>.\<close>

definition updateCentroids :: "nat \<Rightarrow> point list list \<Rightarrow> point list \<Rightarrow> point list \<times> bool" where
  "updateCentroids k clusters centroids =
     fold (\<lambda>i (cs, changed).
             if length (clusters ! i) > 0
             then let newCentroid = calculateCenterLocation (clusters ! i)
                  in if calculateDistance (cs ! i) newCentroid > 1 / 10
                     then (cs[i := newCentroid], True)
                     else (cs, changed)
             else (cs, changed))
          [0 ..< k] (centroids, False)"

text \<open>
  The \<open>while (changed && iterations < maxIterations)\<close> loop, on
  \<open>(centroids, changed, iterations)\<close>. \<open>clusters\<close> is a \<open>const\<close> of the loop body and
  is not part of the state that leaves the loop.
\<close>

function kMeansLoop ::
    "nat \<Rightarrow> point list \<Rightarrow> point list \<Rightarrow> bool \<Rightarrow> nat \<Rightarrow> error + point list \<times> nat" where
  "kMeansLoop k points centroids changed iterations =
     (if changed \<and> iterations < 100
      then (case assignClusters k points centroids of
              Inl e \<Rightarrow> Inl e
            | Inr clusters \<Rightarrow>
                (case updateCentroids k clusters centroids of
                   (centroids', changed') \<Rightarrow>
                     kMeansLoop k points centroids' changed' (iterations + 1)))
      else Inr (centroids, iterations))"
  by pat_completeness auto
termination
  by (relation "measure (\<lambda>(k, points, centroids, changed, iterations). 100 - iterations)") auto

declare kMeansLoop.simps [simp del]

record placement =
  p_bases :: "point list"
  p_clusters :: "point list list"
  p_averageDistance :: real
  p_iterations :: nat

text \<open>
  \<open>kMeansBasePlacement\<close>. The \<open>return\<close> statement is outside the \<open>while\<close> block and
  reads \<open>clusters\<close>, a name that is bound inside the block only, and the repository
  defines no global of that name: the read is a \<open>ReferenceError\<close>, raised before any
  result object exists.
\<close>

definition kMeansBasePlacement :: "point list \<Rightarrow> nat \<Rightarrow> rng \<Rightarrow> error + placement" where
  "kMeansBasePlacement points k r =
     (case fst (initialCentroids k points r) of
        Inl e \<Rightarrow> Inl e
      | Inr centroids \<Rightarrow>
          (case kMeansLoop k points centroids True 0 of
             Inl e \<Rightarrow> Inl e
           | Inr (centroids', iterations') \<Rightarrow> Inl ReferenceError))"

section \<open>Invariants and vocabulary of the proofs\<close>

text \<open>
  What a group built by the grouping loop satisfies: it is not empty, and it is a single
  order or its total weight is within the ceiling.
\<close>

definition groupOk :: "real option \<Rightarrow> order list \<Rightarrow> bool" where
  "groupOk maxCap grp = (grp \<noteq> [] \<and> (length grp = 1 \<or> withinCapacity (groupWeight grp) maxCap))"

text \<open>The identifiers of the drones of a list of assignments.\<close>

definition droneIds :: "assignment list \<Rightarrow> string set" where
  "droneIds as = set (map (\<lambda>a. drone_id (a_drone a)) as)"





text \<open>
  Vocabulary for the crossover: the positions of the child that the second loop still
  has to fill, from \<open>childIndex\<close> on (those outside the copied segment); the holes of a
  child; and the points a child holds.
\<close>

definition openSlots :: "nat \<Rightarrow> nat \<Rightarrow> nat \<Rightarrow> nat \<Rightarrow> nat set" where
  "openSlots start end len ci = {i. i < len \<and> ci \<le> i \<and> (i < start \<or> end < i)}"




section \<open>The fixtures of the test suite\<close>

text \<open>
  The drones and orders of \<open>tests/optimization.test.js\<close> (\<open>mockDrones\<close>,
  \<open>mockOrders\<close>, and the two heavy orders of the capacity test, which have no priority
  class and no status there).
\<close>

definition drone1 :: drone where
  "drone1 = \<lparr>drone_id = ''drone1'', capacity = 10, speed = 60, drone_status = ''idle'',
             batteryLevel = 100,
             drone_location = \<lparr>px = 0, py = 0, orderId = None, ident = None\<rparr>\<rparr>"

definition drone2 :: drone where
  "drone2 = \<lparr>drone_id = ''drone2'', capacity = 8, speed = 65, drone_status = ''idle'',
             batteryLevel = 80,
             drone_location = \<lparr>px = 5, py = 5, orderId = None, ident = None\<rparr>\<rparr>"

definition order1 :: order where
  "order1 = \<lparr>order_id = ''order1'', weight = 3,
             location = \<lparr>px = 10, py = 15, orderId = None, ident = None\<rparr>,
             priority = ''alta'', status = ''pending'', priorityScore = 120\<rparr>"

definition order2 :: order where
  "order2 = \<lparr>order_id = ''order2'', weight = 4,
             location = \<lparr>px = 25, py = 30, orderId = None, ident = None\<rparr>,
             priority = ''media'', status = ''pending'', priorityScore = 80\<rparr>"

definition order3 :: order where
  "order3 = \<lparr>order_id = ''order3'', weight = 2,
             location = \<lparr>px = 12, py = 18, orderId = None, ident = None\<rparr>,
             priority = ''baixa'', status = ''pending'', priorityScore = 40\<rparr>"

definition heavy1 :: order where
  "heavy1 = \<lparr>order_id = ''heavy1'', weight = 15,
             location = \<lparr>px = 10, py = 10, orderId = None, ident = None\<rparr>,
             priority = '''', status = '''', priorityScore = 100\<rparr>"

definition heavy2 :: order where
  "heavy2 = \<lparr>order_id = ''heavy2'', weight = 12,
             location = \<lparr>px = 15, py = 15, orderId = None, ident = None\<rparr>,
             priority = '''', status = '''', priorityScore = 90\<rparr>"

section \<open>Random draws stay in range\<close>

lemma validRandom_shift: "validRandom r \<Longrightarrow> validRandom (\<lambda>n. r (Suc n))"
  by (simp add: validRandom_def)

lemma validRandom_zero: "validRandom (\<lambda>n. 0)"
  by (simp add: validRandom_def)

lemma random_valid:
  "validRandom r \<Longrightarrow> random r = (u, r') \<Longrightarrow> 0 \<le> u \<and> u < 1 \<and> validRandom r'"
  by (auto simp: random_def validRandom_def)

lemma randomIndex_valid:
  assumes "validRandom r" and "randomIndex n r = (j, r')" and "0 < n"
  shows "j < n \<and> validRandom r'"
proof -
  obtain u where u: "random r = (u, r')" and j: "j = nat \<lfloor>u * real n\<rfloor>"
    using assms(2) by (auto simp: randomIndex_def split: prod.splits)
  from random_valid[OF assms(1) u] have u0: "0 \<le> u" and u1: "u < 1" and v: "validRandom r'"
    by auto
  have "u * real n < real n" using u1 assms(3) by simp
  then have "\<lfloor>u * real n\<rfloor> < int n" by (simp add: floor_less_iff)
  moreover have "0 \<le> \<lfloor>u * real n\<rfloor>" using u0 by simp
  ultimately have "j < n" unfolding j by linarith
  with v show ?thesis by simp
qed

lemma randomIndex_valid_any:
  "validRandom r \<Longrightarrow> randomIndex n r = (j, r') \<Longrightarrow> validRandom r'"
  by (auto simp: randomIndex_def random_def validRandom_def split: prod.splits)


section \<open>Nearest neighbour: the route is the greedy permutation\<close>

lemma firstMinIndex_less:
  assumes "ds \<noteq> []"
  shows "firstMinIndex ds < length ds"
proof -
  from assms have "Min (set ds) \<in> set ds" by (intro Min_in) auto
  then have "takeWhile (\<lambda>d. d \<noteq> Min (set ds)) ds \<noteq> ds"
    by (metis (mono_tags, lifting) takeWhile_eq_all_conv)
  then show ?thesis
    unfolding firstMinIndex_def
    by (metis le_neq_implies_less length_takeWhile_le takeWhile_eq_take take_all_iff order_refl)
qed

lemma firstMinIndex_snoc:
  assumes "ds \<noteq> []"
  shows "firstMinIndex (ds @ [d]) = (if d < Min (set ds) then length ds else firstMinIndex ds)"
proof (cases "d < Min (set ds)")
  case True
  have "Min (insert d (set ds)) = min d (Min (set ds))"
    using assms by (intro Min_insert) auto
  with True have m: "Min (set (ds @ [d])) = d"
    by (simp add: min_def)
  have "\<forall>e \<in> set ds. e \<noteq> d"
  proof
    fix e assume "e \<in> set ds"
    then have "Min (set ds) \<le> e" by simp
    with True show "e \<noteq> d" by simp
  qed
  then have "takeWhile (\<lambda>e. e \<noteq> d) (ds @ [d]) = ds"
    by simp
  with True m show ?thesis by (simp add: firstMinIndex_def)
next
  case False
  have "Min (insert d (set ds)) = min d (Min (set ds))"
    using assms by (intro Min_insert) auto
  with False have m: "Min (set (ds @ [d])) = Min (set ds)"
    by (simp add: min_def)
  have "Min (set ds) \<in> set ds" using assms by (intro Min_in) auto
  then have "takeWhile (\<lambda>e. e \<noteq> Min (set ds)) (ds @ [d]) = takeWhile (\<lambda>e. e \<noteq> Min (set ds)) ds"
    by (intro takeWhile_append1) auto
  with False m show ?thesis by (simp add: firstMinIndex_def)
qed

lemma scan_prefix:
  assumes "Suc k \<le> length unvisited"
  shows "fold (\<lambda>i (nearestIndex, nearestDistance).
             let distance = calculateDistance currentPoint (unvisited ! i)
             in if distance < nearestDistance then (i, distance)
                else (nearestIndex, nearestDistance))
        [1 ..< Suc k] (0, calculateDistance currentPoint (unvisited ! 0))
   = (firstMinIndex (take (Suc k) (map (calculateDistance currentPoint) unvisited)),
      Min (set (take (Suc k) (map (calculateDistance currentPoint) unvisited))))"
  using assms
proof (induction k)
  case 0
  then show ?case
    by (cases unvisited) (simp_all add: firstMinIndex_def)
next
  case (Suc k)
  let ?ds = "map (calculateDistance currentPoint) unvisited"
  let ?d = "calculateDistance currentPoint (unvisited ! Suc k)"
  let ?tk = "take (Suc k) ?ds"
  have tk: "take (Suc (Suc k)) ?ds = ?tk @ [?d]"
    using Suc.prems by (simp add: take_Suc_conv_app_nth)
  have ne: "?tk \<noteq> []" using Suc.prems by (cases unvisited) auto
  have len: "length ?tk = Suc k" using Suc.prems by simp
  have up: "[1 ..< Suc (Suc k)] = [1 ..< Suc k] @ [Suc k]" by simp
  have mn: "Min (set (?tk @ [?d])) = min ?d (Min (set ?tk))"
    using ne Min_insert[of "set ?tk" ?d] by simp
  have ih: "fold (\<lambda>i (nearestIndex, nearestDistance).
             let distance = calculateDistance currentPoint (unvisited ! i)
             in if distance < nearestDistance then (i, distance)
                else (nearestIndex, nearestDistance))
        [1 ..< Suc k] (0, calculateDistance currentPoint (unvisited ! 0))
       = (firstMinIndex ?tk, Min (set ?tk))"
    using Suc.IH Suc.prems by simp
  show ?case
    unfolding up fold_append comp_apply ih tk mn firstMinIndex_snoc[OF ne] len
    by (simp add: Let_def min_def)
qed

lemma scanNearest_first_min:
  assumes "unvisited \<noteq> []"
  shows "fst (scanNearest currentPoint unvisited)
           = firstMinIndex (map (calculateDistance currentPoint) unvisited)"
proof -
  from assms obtain k where k: "length unvisited = Suc k" by (cases unvisited) auto
  show ?thesis
    unfolding scanNearest_def k
    using scan_prefix[of k unvisited currentPoint] k by simp
qed

lemma mset_splice1: "i < length xs \<Longrightarrow> add_mset (xs ! i) (mset (splice1 i xs)) = mset xs"
  unfolding splice1_def
  by (metis id_take_nth_drop mset.simps(2) mset_append union_mset_add_mset_right)

lemma length_splice1: "i < length xs \<Longrightarrow> length (splice1 i xs) = length xs - 1"
  by (auto simp: splice1_def)

lemma mset_greedyVisit:
  "length unvisited = n \<Longrightarrow> mset (greedyVisit n currentPoint unvisited) = mset unvisited"
proof (induction n arbitrary: currentPoint unvisited)
  case 0
  then show ?case by simp
next
  case (Suc n)
  let ?i = "firstMinIndex (map (calculateDistance currentPoint) unvisited)"
  have lt: "?i < length unvisited"
    using firstMinIndex_less[of "map (calculateDistance currentPoint) unvisited"] Suc.prems
    by (cases unvisited) simp_all
  then have "length (splice1 ?i unvisited) = n" using Suc.prems by (simp add: length_splice1)
  then show ?case using Suc.IH mset_splice1[OF lt] by (simp add: Let_def)
qed

lemma nearestNeighborLoop_greedy:
  "nearestNeighborLoop route unvisited currentPoint =
     route @ greedyVisit (length unvisited) currentPoint unvisited"
proof (induction route unvisited currentPoint rule: nearestNeighborLoop.induct)
  case (1 route unvisited currentPoint)
  show ?case
  proof (cases "unvisited = []")
    case True
    then show ?thesis by (simp add: nearestNeighborLoop.simps)
  next
    case False
    let ?i = "fst (scanNearest currentPoint unvisited)"
    have i: "?i = firstMinIndex (map (calculateDistance currentPoint) unvisited)"
      using False by (rule scanNearest_first_min)
    have lt: "?i < length unvisited"
      unfolding i using firstMinIndex_less[of "map (calculateDistance currentPoint) unvisited"] False
      by simp
    obtain n where n: "length unvisited = Suc n" using False by (cases unvisited) auto
    have ln: "length (splice1 ?i unvisited) = n" using lt n by (simp add: length_splice1)
    have "nearestNeighborLoop route unvisited currentPoint =
          nearestNeighborLoop (route @ [unvisited ! ?i]) (splice1 ?i unvisited) (unvisited ! ?i)"
      using False by (subst nearestNeighborLoop.simps) (simp add: Let_def)
    also have "\<dots> = (route @ [unvisited ! ?i]) @ greedyVisit n (unvisited ! ?i) (splice1 ?i unvisited)"
      using "1.IH"[OF False refl refl] ln by simp
    also have "\<dots> = route @ greedyVisit (length unvisited) currentPoint unvisited"
      unfolding n by (simp add: Let_def i[symmetric])
    finally show ?thesis .
  qed
qed

lemma nearestNeighborRoute_body:
  "points \<noteq> [] \<Longrightarrow>
   nearestNeighborRoute points startPoint
     = startPoint # greedyVisit (length points) startPoint points @ [startPoint]"
  by (simp add: nearestNeighborRoute_def nearestNeighborLoop_greedy)

lemma greedyVisit_step:
  "firstMinIndex (map (calculateDistance c) u) = i \<Longrightarrow>
   greedyVisit (Suc n) c u = u ! i # greedyVisit n (u ! i) (splice1 i u)"
  by (simp add: Let_def)

text \<open>
  C4. For the empty point set the nearest-neighbour route is \<open>[origin]\<close>. For a
  non-empty point set the route is the origin, then the points in the order in which
  the greedy rule visits them (at each step the unvisited point at minimum distance from
  the current position, the first such point in the order of the unvisited list), then
  the origin: a permutation of the input points between two copies of the origin, of
  length \<open>n + 2\<close>.
\<close>

theorem nearestNeighborRoute_greedy_permutation:
  "(points = [] \<longrightarrow> nearestNeighborRoute points startPoint = [startPoint]) \<and>
   (points \<noteq> [] \<longrightarrow>
      nearestNeighborRoute points startPoint
        = startPoint # greedyVisit (length points) startPoint points @ [startPoint] \<and>
      mset (greedyVisit (length points) startPoint points) = mset points \<and>
      length (nearestNeighborRoute points startPoint) = length points + 2)"
proof -
  have "length (greedyVisit (length points) startPoint points) = length points"
    by (metis mset_greedyVisit size_mset)
  then show ?thesis
    by (simp add: nearestNeighborRoute_def nearestNeighborLoop_greedy mset_greedyVisit)
qed

theorem nearestNeighborRoute_greedy_permutation_witness:
  "[\<lparr>px = 10, py = 10, orderId = Some ''1'', ident = None\<rparr>,
    \<lparr>px = 20, py = 20, orderId = Some ''2'', ident = None\<rparr>,
    \<lparr>px = 30, py = 30, orderId = Some ''3'', ident = None\<rparr>] \<noteq> [] \<and>
   nearestNeighborRoute
     [\<lparr>px = 10, py = 10, orderId = Some ''1'', ident = None\<rparr>,
      \<lparr>px = 20, py = 20, orderId = Some ''2'', ident = None\<rparr>,
      \<lparr>px = 30, py = 30, orderId = Some ''3'', ident = None\<rparr>]
     \<lparr>px = 0, py = 0, orderId = None, ident = None\<rparr>
   = [\<lparr>px = 0, py = 0, orderId = None, ident = None\<rparr>,
      \<lparr>px = 10, py = 10, orderId = Some ''1'', ident = None\<rparr>,
      \<lparr>px = 20, py = 20, orderId = Some ''2'', ident = None\<rparr>,
      \<lparr>px = 30, py = 30, orderId = Some ''3'', ident = None\<rparr>,
      \<lparr>px = 0, py = 0, orderId = None, ident = None\<rparr>]"
proof -
  let ?p1 = "\<lparr>px = 10, py = 10, orderId = Some ''1'', ident = None\<rparr>"
  let ?p2 = "\<lparr>px = 20, py = 20, orderId = Some ''2'', ident = None\<rparr>"
  let ?p3 = "\<lparr>px = 30, py = 30, orderId = Some ''3'', ident = None\<rparr>"
  let ?s = "\<lparr>px = 0, py = 0, orderId = None, ident = None\<rparr>"
  have ne: "[?p1, ?p2, ?p3] \<noteq> []" by simp
  have len: "length [?p1, ?p2, ?p3] = Suc (Suc (Suc 0))" by simp
  have a: "firstMinIndex (map (calculateDistance ?s) [?p1, ?p2, ?p3]) = 0"
    by (simp add: firstMinIndex_def calculateDistance_def)
  have b: "firstMinIndex (map (calculateDistance ?p1) [?p2, ?p3]) = 0"
    by (simp add: firstMinIndex_def calculateDistance_def)
  have c: "firstMinIndex (map (calculateDistance ?p2) [?p3]) = 0"
    by (simp add: firstMinIndex_def calculateDistance_def)
  have g: "greedyVisit (Suc (Suc (Suc 0))) ?s [?p1, ?p2, ?p3] = [?p1, ?p2, ?p3]"
    by (simp add: greedyVisit_step[OF a] greedyVisit_step[OF b] greedyVisit_step[OF c]
                  splice1_def del: greedyVisit.simps(2))
  from nearestNeighborRoute_greedy_permutation [of "[?p1, ?p2, ?p3]" ?s] ne
  have "nearestNeighborRoute [?p1, ?p2, ?p3] ?s
        = ?s # greedyVisit (length [?p1, ?p2, ?p3]) ?s [?p1, ?p2, ?p3] @ [?s]"
    by blast
  then show ?thesis unfolding len g by simp
qed

section \<open>Task grouping: partition and capacity ceiling\<close>

lemma mset_sortDescending: "mset (sortDescending key xs) = mset xs"
  by (simp add: sortDescending_def)

lemma set_sortDescending: "set (sortDescending key xs) = set xs"
  by (simp add: sortDescending_def)

lemma groupWeight_sum: "groupWeight grp = sum_list (map weight grp)"
proof -
  have "foldl (\<lambda>sum order. sum + weight order) a grp = a + sum_list (map weight grp)" for a
    by (induction grp arbitrary: a) simp_all
  then show ?thesis by (simp add: groupWeight_def)
qed

lemma groupWeight_snoc: "groupWeight (grp @ [order]) = groupWeight grp + weight order"
  by (simp add: groupWeight_sum)

lemma pushToFirstGroup_assigned:
  "pushToFirstGroup maxCap order groups = (groups', True) \<Longrightarrow>
     mset (concat groups') = add_mset order (mset (concat groups)) \<and>
     length groups' = length groups \<and>
     (list_all (groupOk maxCap) groups \<longrightarrow> list_all (groupOk maxCap) groups')"
proof (induction groups arbitrary: groups')
  case Nil
  then show ?case by simp
next
  case (Cons grp groups)
  show ?case
  proof (cases "withinCapacity (groupWeight grp + weight order) maxCap
                  \<and> calculateGroupDistance (grp @ [order]) \<le> 50")
    case True
    with Cons.prems have "groups' = (grp @ [order]) # groups" by (simp add: Let_def)
    with True show ?thesis by (simp add: groupOk_def groupWeight_snoc)
  next
    case False
    obtain gs' b where p: "pushToFirstGroup maxCap order groups = (gs', b)"
      by (cases "pushToFirstGroup maxCap order groups")
    with False Cons.prems have "groups' = grp # gs'" and "b = True"
      by (auto simp: Let_def)
    with p Cons.IH[of gs'] show ?thesis by simp
  qed
qed

lemma pushToFirstGroup_unassigned:
  "pushToFirstGroup maxCap order groups = (groups', False) \<Longrightarrow> groups' = groups"
proof (induction groups arbitrary: groups')
  case Nil
  then show ?case by simp
next
  case (Cons grp groups)
  obtain gs' b where p: "pushToFirstGroup maxCap order groups = (gs', b)"
    by (cases "pushToFirstGroup maxCap order groups")
  with Cons.prems have "groups' = grp # gs'" and "b = False"
    by (auto simp: Let_def split: if_splits)
  with p Cons.IH[of gs'] show ?case by simp
qed

lemma groupLoop_partition:
  "mset (concat (groupLoop maxCap sortedOrders groups))
     = mset (concat groups) + mset sortedOrders \<and>
   (list_all (groupOk maxCap) groups
      \<longrightarrow> list_all (groupOk maxCap) (groupLoop maxCap sortedOrders groups))"
proof (induction sortedOrders arbitrary: groups)
  case Nil
  then show ?case by simp
next
  case (Cons order sortedOrders)
  obtain gs' b where p: "pushToFirstGroup maxCap order groups = (gs', b)"
    by (cases "pushToFirstGroup maxCap order groups")
  show ?case
  proof (cases b)
    case True
    with p pushToFirstGroup_assigned[of maxCap order groups gs'] Cons.IH[of gs']
    show ?thesis by simp
  next
    case False
    with p pushToFirstGroup_unassigned[of maxCap order groups gs'] have "gs' = groups" by simp
    with p False Cons.IH[of "groups @ [[order]]"] show ?thesis
      by (simp add: groupOk_def)
  qed
qed

lemma length_concat_sum: "length (concat xss) = sum_list (map length xss)"
  by (induction xss) simp_all

lemma sort2: "key b \<le> key a \<Longrightarrow> sortDescending key [a, b] = [a, b]"
  by (simp add: sortDescending_def)

lemma sort2': "key a < key b \<Longrightarrow> sortDescending key [a, b] = [b, a]"
  by (simp add: sortDescending_def)


lemma sqrt_le_bound: "0 \<le> b \<Longrightarrow> a \<le> b * b \<Longrightarrow> sqrt a \<le> b"
  by (metis abs_of_nonneg real_sqrt_abs2 real_sqrt_le_iff)

lemma group_mock_orders:
  "fst (groupOrdersForOptimalDelivery [order1, order2, order3] [drone1, drone2])
     = [[order1, order2, order3]]"
proof -
  have s: "sortDescending priorityScore [order1, order2, order3] = [order1, order2, order3]"
    by (simp add: sortDescending_def order1_def order2_def order3_def)
  have mc: "maxCapacity [drone1, drone2] = Some 10"
    by (simp add: maxCapacity_def drone1_def drone2_def)
  have d12: "calculateDistance (location order1) (location order2) \<le> 22"
    unfolding calculateDistance_def Let_def
    by (rule sqrt_le_bound) (simp_all add: order1_def order2_def)
  have d23: "calculateDistance (location order2) (location order3) \<le> 18"
    unfolding calculateDistance_def Let_def
    by (rule sqrt_le_bound) (simp_all add: order2_def order3_def)
  have g2: "calculateGroupDistance [order1, order2] \<le> 50"
    using d12 by (simp add: calculateGroupDistance_def)
  have g3: "calculateGroupDistance [order1, order2, order3] \<le> 50"
    using d12 d23 by (simp add: calculateGroupDistance_def eval_nat_numeral)
  have w1: "withinCapacity (groupWeight [order1] + weight order2) (Some 10)"
    by (simp add: groupWeight_def withinCapacity_def order1_def order2_def)
  have w2: "withinCapacity (groupWeight [order1, order2] + weight order3) (Some 10)"
    by (simp add: groupWeight_def withinCapacity_def order1_def order2_def order3_def)
  have "groupLoop (Some 10) [order1, order2, order3] [] = [[order1, order2, order3]]"
    using g2 g3 w1 w2 by (simp add: Let_def)
  then show ?thesis
    by (simp add: groupOrdersForOptimalDelivery_def Let_def s mc)
qed


text \<open>
  C5 (amended). For every task list and every non-empty unit list the groups partition
  the input tasks: the concatenation of the groups is a permutation of the input, so the
  sizes add up to the number of tasks. No group is empty, and every group of two or more
  tasks has a total weight within the ceiling, the maximum capacity over the units. A
  group of one task is not bounded: a task heavier than the ceiling forms a group of its
  own.
\<close>

theorem groupOrders_partition_and_ceiling:
  assumes "drones \<noteq> []"
  shows "mset (concat (fst (groupOrdersForOptimalDelivery os drones))) = mset os \<and>
         sum_list (map length (fst (groupOrdersForOptimalDelivery os drones))) = length os \<and>
         (\<forall>grp \<in> set (fst (groupOrdersForOptimalDelivery os drones)).
            grp \<noteq> [] \<and>
            (length grp = 1 \<or> groupWeight grp \<le> Max (set (map capacity drones))))"
proof -
  let ?mc = "maxCapacity drones"
  let ?gs = "groupLoop ?mc (sortDescending priorityScore os) []"
  have gs: "fst (groupOrdersForOptimalDelivery os drones) = ?gs"
    by (simp add: groupOrdersForOptimalDelivery_def Let_def)
  have m: "mset (concat ?gs) = mset os"
    using groupLoop_partition[of ?mc "sortDescending priorityScore os" "[]"]
    by (simp add: mset_sortDescending)
  then have "length (concat ?gs) = length os"
    by (metis size_mset)
  then have l: "sum_list (map length ?gs) = length os"
    by (simp add: length_concat_sum)
  have "list_all (groupOk ?mc) ?gs"
    using groupLoop_partition[of ?mc "sortDescending priorityScore os" "[]"] by simp
  then have "\<forall>grp \<in> set ?gs. grp \<noteq> [] \<and>
            (length grp = 1 \<or> groupWeight grp \<le> Max (set (map capacity drones)))"
    using assms by (auto simp: list_all_iff groupOk_def maxCapacity_def withinCapacity_def)
  with m l show ?thesis unfolding gs by blast
qed


text \<open>
  Witness for C5: the three orders and the two drones of the test suite form one group,
  of weight 9, below the ceiling 10.
\<close>

theorem groupOrders_partition_and_ceiling_witness:
  "[drone1, drone2] \<noteq> [] \<and>
   fst (groupOrdersForOptimalDelivery [order1, order2, order3] [drone1, drone2])
     = [[order1, order2, order3]] \<and>
   mset (concat (fst (groupOrdersForOptimalDelivery [order1, order2, order3] [drone1, drone2])))
     = mset [order1, order2, order3] \<and>
   groupWeight [order1, order2, order3] \<le> Max (set (map capacity [drone1, drone2]))"
proof -
  have ne: "[drone1, drone2] \<noteq> []" by simp
  have l: "length [order1, order2, order3] \<noteq> 1" by simp
  from groupOrders_partition_and_ceiling[OF ne, of "[order1, order2, order3]"]
  show ?thesis
    unfolding group_mock_orders using l by simp
qed

text \<open>
  Counterexample to C5 as stated: the two heavy orders of the capacity test (15 and 12)
  with the drones of the test suite (ceiling 10) form two groups of one order, and the
  first group weighs 15.
\<close>

theorem groupOrders_heavy_counterexample:
  "fst (groupOrdersForOptimalDelivery [heavy1, heavy2] [drone1, drone2]) = [[heavy1], [heavy2]] \<and>
   groupWeight [heavy1] = 15 \<and>
   Max (set (map capacity [drone1, drone2])) = 10"
proof -
  have s: "sortDescending priorityScore [heavy1, heavy2] = [heavy1, heavy2]"
    by (rule sort2) (simp add: heavy1_def heavy2_def)
  have mc: "maxCapacity [drone1, drone2] = Some 10"
    by (simp add: maxCapacity_def drone1_def drone2_def)
  have w1: "groupWeight [heavy1] = 15" by (simp add: groupWeight_def heavy1_def)
  have nw: "\<not> withinCapacity (groupWeight [heavy1] + weight heavy2) (Some 10)"
    by (simp add: w1 withinCapacity_def heavy2_def)
  have g: "groupLoop (Some 10) [heavy1, heavy2] [] = [[heavy1], [heavy2]]"
    using nw by (simp add: Let_def)
  have "fst (groupOrdersForOptimalDelivery [heavy1, heavy2] [drone1, drone2])
          = groupLoop (maxCapacity [drone1, drone2]) (sortDescending priorityScore [heavy1, heavy2]) []"
    by (simp add: groupOrdersForOptimalDelivery_def Let_def)
  then have "fst (groupOrdersForOptimalDelivery [heavy1, heavy2] [drone1, drone2])
          = [[heavy1], [heavy2]]"
    unfolding s mc g .
  moreover have "Max (set (map capacity [drone1, drone2])) = 10"
    by (simp add: drone1_def drone2_def)
  ultimately show ?thesis using w1 by simp
qed

text \<open>
  C8. The arrays passed to \<open>groupOrdersForOptimalDelivery\<close> and to
  \<open>assignOrderGroupsToDrones\<close> are sorted in place: on the input \<open>[order3, order1]\<close>
  (priority scores 40 and 120) the caller's array holds \<open>[order1, order3]\<close> after the
  call, and on the groups \<open>[[order3], [order1]]\<close> the caller's array holds
  \<open>[[order1], [order3]]\<close>.
\<close>

theorem groupOrders_sorts_input_in_place:
  "snd (groupOrdersForOptimalDelivery [order3, order1] [drone1, drone2]) = [order1, order3] \<and>
   snd (assignOrderGroupsToDrones [[order3], [order1]] [drone1, drone2]) = [[order1], [order3]]"
proof -
  have "sortDescending priorityScore [order3, order1] = [order1, order3]"
    by (rule sort2') (simp add: order1_def order3_def)
  moreover have "sortDescending averagePriority [[order3], [order1]] = [[order1], [order3]]"
    by (rule sort2') (simp add: averagePriority_def order1_def order3_def)
  ultimately show ?thesis
    by (simp add: groupOrdersForOptimalDelivery_def assignOrderGroupsToDrones_def Let_def)
qed
section \<open>Assignment: matched or omitted\<close>

lemma groupWeight_nonneg: "\<forall>order \<in> set grp. 0 \<le> weight order \<Longrightarrow> 0 \<le> groupWeight grp"
  unfolding groupWeight_sum by (induction grp) auto

lemma findBestLoop_Some_start:
  "findBestLoop tw c ds (Some b, s) \<noteq> None"
  by (induction ds arbitrary: b s) (auto simp: Let_def)

lemma findBestLoop_result:
  "findBestLoop tw c ds (b0, s) = Some d \<Longrightarrow>
     b0 = Some d \<or> (d \<in> set ds \<and> tw \<le> capacity d)"
proof (induction ds arbitrary: b0 s)
  case Nil
  then show ?case by simp
next
  case (Cons a ds)
  let ?score = "(1 / (calculateDistance (drone_location a) c + 1)) * (4 / 10)
                   + (tw / capacity a) * (3 / 10) + (batteryLevel a / 100) * (3 / 10)"
  show ?case
  proof (cases "capacity a < tw \<or> capacity a = 0 \<or> \<not> ?score > s")
    case True
    then have "findBestLoop tw c (a # ds) (b0, s) = findBestLoop tw c ds (b0, s)"
      by (auto simp: Let_def)
    with Cons.prems Cons.IH[of b0 s] show ?thesis by auto
  next
    case False
    then have "findBestLoop tw c (a # ds) (b0, s) = findBestLoop tw c ds (Some a, ?score)"
      by (auto simp: Let_def)
    with Cons.prems Cons.IH[of "Some a" ?score] False show ?thesis by auto
  qed
qed

lemma findBestLoop_None:
  assumes "findBestLoop tw c ds (None, s) = None" and "s \<le> 0" and "0 \<le> tw"
    and "\<forall>d \<in> set ds. 0 < capacity d \<and> 0 \<le> batteryLevel d"
  shows "\<forall>d \<in> set ds. capacity d < tw"
  using assms
proof (induction ds)
  case Nil
  then show ?case by simp
next
  case (Cons d ds)
  show ?case
  proof (cases "capacity d < tw")
    case True
    with Cons show ?thesis by simp
  next
    case False
    have cap: "0 < capacity d" and bat: "0 \<le> batteryLevel d" using Cons.prems by auto
    let ?score = "(1 / (calculateDistance (drone_location d) c + 1)) * (4 / 10)
                     + (tw / capacity d) * (3 / 10) + (batteryLevel d / 100) * (3 / 10)"
    have "0 \<le> calculateDistance (drone_location d) c"
      by (simp add: calculateDistance_def Let_def)
    then have "0 < (1 / (calculateDistance (drone_location d) c + 1)) * (4 / 10)"
      by simp
    moreover have "0 \<le> (tw / capacity d) * (3 / 10)" using cap Cons.prems(3) by simp
    moreover have "0 \<le> (batteryLevel d / 100) * (3 / 10)" using bat by simp
    ultimately have "0 < ?score" by linarith
    with Cons.prems(2) have "s < ?score" by linarith
    with False cap Cons.prems(1) have "findBestLoop tw c ds (Some d, ?score) = None"
      by (simp add: Let_def)
    with findBestLoop_Some_start show ?thesis by blast
  qed
qed

lemma findBestDroneForGroup_Some:
  "findBestDroneForGroup grp ds = Some d \<Longrightarrow> d \<in> set ds \<and> groupWeight grp \<le> capacity d"
  using findBestLoop_result[of "groupWeight grp" _ ds None "- 1" d]
  by (auto simp: findBestDroneForGroup_def Let_def split: if_splits)

lemma findBestDroneForGroup_None:
  assumes "findBestDroneForGroup grp ds = None" and "grp \<noteq> []"
    and "\<forall>order \<in> set grp. 0 \<le> weight order"
    and "\<forall>d \<in> set ds. 0 < capacity d \<and> 0 \<le> batteryLevel d"
  shows "\<forall>d \<in> set ds. capacity d < groupWeight grp"
proof -
  have "findBestLoop (groupWeight grp) (calculateCenterLocation (map location grp)) ds (None, - 1) = None"
    using assms(1,2) by (simp add: findBestDroneForGroup_def Let_def)
  then show ?thesis
    using assms(3,4) groupWeight_nonneg[of grp]
    by (intro findBestLoop_None[where s = "- 1" and c = "calculateCenterLocation (map location grp)"]) auto
qed

lemma assignLoop_sub: "mset (map a_orders (assignLoop gs ds used)) \<subseteq># mset gs"
proof (induction gs arbitrary: used)
  case Nil
  then show ?case by simp
next
  case (Cons g gs)
  show ?case
  proof (cases "findBestDroneForGroup g (filter (\<lambda>d. drone_id d \<notin> used) ds)")
    case None
    then show ?thesis using Cons.IH[of used]
      by (simp add: subset_mset.order_trans)
  next
    case (Some b)
    then show ?thesis using Cons.IH[of "insert (drone_id b) used"]
      by simp
  qed
qed

lemma assignLoop_distinct:
  "distinct (map (\<lambda>a. drone_id (a_drone a)) (assignLoop gs ds used)) \<and>
   droneIds (assignLoop gs ds used) \<inter> used = {}"
proof (induction gs arbitrary: used)
  case Nil
  then show ?case by (simp add: droneIds_def)
next
  case (Cons g gs)
  show ?case
  proof (cases "findBestDroneForGroup g (filter (\<lambda>d. drone_id d \<notin> used) ds)")
    case None
    then show ?thesis using Cons.IH[of used] by simp
  next
    case (Some b)
    from findBestDroneForGroup_Some[OF Some] have "drone_id b \<notin> used" by simp
    then show ?thesis using Some Cons.IH[of "insert (drone_id b) used"]
      by (auto simp: droneIds_def)
  qed
qed

lemma assignLoop_eligible:
  "\<forall>a \<in> set (assignLoop gs ds used).
      a_drone a \<in> set ds \<and> groupWeight (a_orders a) \<le> capacity (a_drone a)"
proof (induction gs arbitrary: used)
  case Nil
  then show ?case by simp
next
  case (Cons g gs)
  show ?case
  proof (cases "findBestDroneForGroup g (filter (\<lambda>d. drone_id d \<notin> used) ds)")
    case None
    then show ?thesis using Cons.IH[of used] by simp
  next
    case (Some b)
    from findBestDroneForGroup_Some[OF Some] show ?thesis
      using Some Cons.IH[of "insert (drone_id b) used"] by simp
  qed
qed

lemma assignLoop_omitted:
  assumes "\<forall>g \<in> set gs. g \<noteq> [] \<and> (\<forall>order \<in> set g. 0 \<le> weight order)"
    and "\<forall>d \<in> set ds. 0 < capacity d \<and> 0 \<le> batteryLevel d"
    and "g \<in> set gs" and "g \<notin> set (map a_orders (assignLoop gs ds used))"
    and "d \<in> set ds" and "groupWeight g \<le> capacity d"
  shows "drone_id d \<in> used \<union> droneIds (assignLoop gs ds used)"
  using assms
proof (induction gs arbitrary: used)
  case Nil
  then show ?case by simp
next
  case (Cons g' gs)
  let ?unused = "filter (\<lambda>d. drone_id d \<notin> used) ds"
  show ?case
  proof (cases "findBestDroneForGroup g' ?unused")
    case None
    show ?thesis
    proof (cases "g = g'")
      case True
      have "\<forall>d \<in> set ?unused. capacity d < groupWeight g'"
        using None Cons.prems(1,2) by (intro findBestDroneForGroup_None) auto
      with True Cons.prems(5,6) have "drone_id d \<in> used" by auto
      then show ?thesis by simp
    next
      case False
      with Cons.prems None have "drone_id d \<in> used \<union> droneIds (assignLoop gs ds used)"
        by (intro Cons.IH) auto
      with None show ?thesis by simp
    qed
  next
    case (Some b)
    with Cons.prems(4) have ne: "g \<noteq> g'" and nin: "g \<notin> set (map a_orders (assignLoop gs ds (insert (drone_id b) used)))"
      by auto
    with Cons.prems have "drone_id d \<in> insert (drone_id b) used
                            \<union> droneIds (assignLoop gs ds (insert (drone_id b) used))"
      by (intro Cons.IH) auto
    with Some show ?thesis by (auto simp: droneIds_def)
  qed
qed


lemma findBestDroneForGroup_single:
  assumes "grp \<noteq> []" and "\<forall>order \<in> set grp. 0 \<le> weight order"
    and "0 < capacity d" and "0 \<le> batteryLevel d" and "groupWeight grp \<le> capacity d"
  shows "findBestDroneForGroup grp [d] = Some d"
proof (cases "findBestDroneForGroup grp [d]")
  case None
  from findBestDroneForGroup_None[OF None assms(1,2)] assms(3,4,5) show ?thesis by auto
next
  case (Some b)
  from findBestDroneForGroup_Some[OF Some] Some show ?thesis by simp
qed

lemma findBest_order1_drone1: "findBestDroneForGroup [order1] [drone1] = Some drone1"
  by (rule findBestDroneForGroup_single) (simp_all add: order1_def drone1_def groupWeight_def)

lemma assign_two_groups_one_drone:
  "fst (assignOrderGroupsToDrones [[order1], [order2]] [drone1])
     = [\<lparr>a_drone = drone1, a_orders = [order1], a_route = None\<rparr>]"
proof -
  have s: "sortDescending averagePriority [[order1], [order2]] = [[order1], [order2]]"
    by (rule sort2) (simp add: averagePriority_def order1_def order2_def)
  have e: "findBestDroneForGroup [order2] [] = None"
    by (simp add: findBestDroneForGroup_def Let_def)
  show ?thesis
    by (simp add: assignOrderGroupsToDrones_def Let_def s findBest_order1_drone1 e)
qed


text \<open>
  C1 (amended). For groups that are not empty and have no negative weight, and units of
  positive capacity and non-negative battery level: every assignment of the result
  carries one group of the input, and no group more often than the input has it; no
  unit identifier appears in two assignments; the unit of an assignment is one of the
  given units and has the capacity for its group; and a group that is in no assignment
  is omitted from the result (there is no list of unmatched groups), which happens only
  when every unit with the capacity for it is already used in the result.
\<close>

theorem assignOrderGroupsToDrones_matched_or_omitted:
  assumes "\<forall>g \<in> set orderGroups. g \<noteq> [] \<and> (\<forall>order \<in> set g. 0 \<le> weight order)"
    and "\<forall>d \<in> set drones. 0 < capacity d \<and> 0 \<le> batteryLevel d"
  shows "mset (map a_orders (fst (assignOrderGroupsToDrones orderGroups drones))) \<subseteq># mset orderGroups \<and>
         distinct (map (\<lambda>a. drone_id (a_drone a)) (fst (assignOrderGroupsToDrones orderGroups drones))) \<and>
         (\<forall>a \<in> set (fst (assignOrderGroupsToDrones orderGroups drones)).
             a_drone a \<in> set drones \<and> groupWeight (a_orders a) \<le> capacity (a_drone a)) \<and>
         (\<forall>g \<in> set orderGroups.
             g \<notin> set (map a_orders (fst (assignOrderGroupsToDrones orderGroups drones))) \<longrightarrow>
             (\<forall>d \<in> set drones. groupWeight g \<le> capacity d \<longrightarrow>
                drone_id d \<in> droneIds (fst (assignOrderGroupsToDrones orderGroups drones))))"
proof -
  let ?sg = "sortDescending averagePriority orderGroups"
  have r: "fst (assignOrderGroupsToDrones orderGroups drones) = assignLoop ?sg drones {}"
    by (simp add: assignOrderGroupsToDrones_def Let_def)
  have 1: "mset (map a_orders (assignLoop ?sg drones {})) \<subseteq># mset orderGroups"
    using assignLoop_sub[of ?sg drones "{}"] by (simp add: mset_sortDescending)
  have 2: "distinct (map (\<lambda>a. drone_id (a_drone a)) (assignLoop ?sg drones {}))"
    using assignLoop_distinct[of ?sg drones "{}"] by simp
  note 3 = assignLoop_eligible[of ?sg drones "{}"]
  have 4: "\<forall>g \<in> set orderGroups.
             g \<notin> set (map a_orders (assignLoop ?sg drones {})) \<longrightarrow>
             (\<forall>d \<in> set drones. groupWeight g \<le> capacity d \<longrightarrow>
                drone_id d \<in> droneIds (assignLoop ?sg drones {}))"
  proof (intro ballI impI)
    fix g d
    assume "g \<in> set orderGroups" "g \<notin> set (map a_orders (assignLoop ?sg drones {}))"
      "d \<in> set drones" "groupWeight g \<le> capacity d"
    then have "drone_id d \<in> {} \<union> droneIds (assignLoop ?sg drones {})"
      using assms by (intro assignLoop_omitted[where g = g]) (auto simp: set_sortDescending)
    then show "drone_id d \<in> droneIds (assignLoop ?sg drones {})" by simp
  qed
  from 1 2 3 4 show ?thesis unfolding r by blast
qed


text \<open>
  Witness for C1: two groups and one drone; the group of higher priority gets the drone,
  the other one is omitted, and the only drone that could carry it is used.
\<close>

theorem assignOrderGroupsToDrones_matched_or_omitted_witness:
  "list_all (\<lambda>g. g \<noteq> [] \<and> list_all (\<lambda>order. 0 \<le> weight order) g) [[order1], [order2]] \<and>
   list_all (\<lambda>d. 0 < capacity d \<and> 0 \<le> batteryLevel d) [drone1] \<and>
   fst (assignOrderGroupsToDrones [[order1], [order2]] [drone1])
     = [\<lparr>a_drone = drone1, a_orders = [order1], a_route = None\<rparr>] \<and>
   [order2] \<notin> set (map a_orders (fst (assignOrderGroupsToDrones [[order1], [order2]] [drone1]))) \<and>
   groupWeight [order2] \<le> capacity drone1 \<and>
   drone_id drone1 \<in> droneIds (fst (assignOrderGroupsToDrones [[order1], [order2]] [drone1]))"
proof -
  have h1: "\<forall>g \<in> set [[order1], [order2]]. g \<noteq> [] \<and> (\<forall>order \<in> set g. 0 \<le> weight order)"
    by (simp add: order1_def order2_def)
  have h2: "\<forall>d \<in> set [drone1]. 0 < capacity d \<and> 0 \<le> batteryLevel d"
    by (simp add: drone1_def)
  have n: "[order2] \<notin> set (map a_orders (fst (assignOrderGroupsToDrones [[order1], [order2]] [drone1])))"
    unfolding assign_two_groups_one_drone by (simp add: order1_def order2_def)
  have w: "groupWeight [order2] \<le> capacity drone1"
    by (simp add: groupWeight_def order2_def drone1_def)
  from assignOrderGroupsToDrones_matched_or_omitted[OF h1 h2] n w
  have "drone_id drone1 \<in> droneIds (fst (assignOrderGroupsToDrones [[order1], [order2]] [drone1]))"
    by simp
  with h1 h2 n w assign_two_groups_one_drone show ?thesis
    by (simp add: list_all_iff)
qed


text \<open>
  Counterexample to C1 as stated: the group of the heavy order (15) and the two drones
  of the test suite (capacities 10 and 8). The result, a list of assignments, is empty:
  the group is in no assignment, and the result has no other part to name it.
\<close>

theorem assignOrderGroupsToDrones_drops_group:
  "fst (assignOrderGroupsToDrones [[heavy1]] [drone1, drone2]) = []"
  by (simp add: assignOrderGroupsToDrones_def sortDescending_def findBestDroneForGroup_def
        groupWeight_def heavy1_def drone1_def drone2_def Let_def)
section \<open>The optimisation pass\<close>

text \<open>
  C9. When no drone is available (status \<open>idle\<close> and battery level above 20) or no
  order is pending, \<open>optimizeDeliveryRoutes\<close> returns the failure result with its
  message, for every algorithm option and every sequence of random draws.
\<close>

theorem optimizeDeliveryRoutes_nothing_to_do:
  assumes "filter (\<lambda>d. drone_status d = ''idle'' \<and> batteryLevel d > 20) drones = []
           \<or> filter (\<lambda>order. status order = ''pending'') os = []"
  shows "optimizeDeliveryRoutes drones os algorithmOption r = Failure noDronesOrOrders"
  using assms by (auto simp: optimizeDeliveryRoutes_def Let_def)


text \<open>Witness for C9: the drones of the test suite, all flying.\<close>

theorem optimizeDeliveryRoutes_nothing_to_do_witness:
  "filter (\<lambda>d. drone_status d = ''idle'' \<and> batteryLevel d > 20)
      [drone1\<lparr>drone_status := ''flying''\<rparr>, drone2\<lparr>drone_status := ''flying''\<rparr>] = [] \<and>
   optimizeDeliveryRoutes [drone1\<lparr>drone_status := ''flying''\<rparr>, drone2\<lparr>drone_status := ''flying''\<rparr>]
      [order1, order2, order3] None (\<lambda>n. 0) = Failure noDronesOrOrders"
proof -
  have f: "filter (\<lambda>d. drone_status d = ''idle'' \<and> batteryLevel d > 20)
      [drone1\<lparr>drone_status := ''flying''\<rparr>, drone2\<lparr>drone_status := ''flying''\<rparr>] = []"
    by simp
  then show ?thesis
    using optimizeDeliveryRoutes_nothing_to_do
            [of "[drone1\<lparr>drone_status := ''flying''\<rparr>, drone2\<lparr>drone_status := ''flying''\<rparr>]"
                "[order1, order2, order3]" None "\<lambda>n. 0"]
    by blast
qed

lemma assignLoop_no_route: "\<forall>a \<in> set (assignLoop gs ds used). a_route a = None"
proof (induction gs arbitrary: used)
  case Nil
  then show ?case by simp
next
  case (Cons g gs)
  then show ?case
    by (cases "findBestDroneForGroup g (filter (\<lambda>d. drone_id d \<notin> used) ds)") simp_all
qed

lemma optimizeAssignments_estimates:
  "optimizeAssignments as algorithm r = (Inr entries, r') \<Longrightarrow>
   \<forall>a \<in> set as. a_route a = None \<Longrightarrow>
   \<forall>e \<in> set entries. estimatedTime e = 0 \<and> estimatedBattery e = 0"
proof (induction as arbitrary: r entries r')
  case Nil
  then show ?case by simp
next
  case (Cons a as)
  obtain res r1 where c: "calculateOptimalRoute (a_orders a) (drone_location (a_drone a)) algorithm r = (res, r1)"
    by (cases "calculateOptimalRoute (a_orders a) (drone_location (a_drone a)) algorithm r")
  obtain res2 r2 where o: "optimizeAssignments as algorithm r1 = (res2, r2)"
    by (cases "optimizeAssignments as algorithm r1")
  from Cons.prems(1) c o obtain rt es where
    res: "res = Inr rt" and res2: "res2 = Inr es" and
    entries: "entries = \<lparr>r_drone = a_drone a, r_orders = a_orders a, r_route = rt,
                       estimatedTime = calculateRouteTime (a_route a) (a_drone a),
                       estimatedBattery = calculateBatteryConsumption (a_route a)\<rparr> # es"
    by (auto simp: Let_def split: sum.splits)
  have "\<forall>e \<in> set es. estimatedTime e = 0 \<and> estimatedBattery e = 0"
    using Cons.IH[of r1 es r2] o res2 Cons.prems(2) by simp
  moreover have "a_route a = None" using Cons.prems(2) by simp
  ultimately show ?case
    unfolding entries by (simp add: calculateRouteTime_def calculateBatteryConsumption_def)
qed


text \<open>
  C10. In every successful result of \<open>optimizeDeliveryRoutes\<close> every entry of the route
  list has \<open>estimatedTime = 0\<close> and \<open>estimatedBattery = 0\<close>.
\<close>

theorem optimizeDeliveryRoutes_estimates_zero:
  assumes "optimizeDeliveryRoutes drones os algorithmOption r = Success routes stats algorithm"
  shows "\<forall>rt \<in> set routes. estimatedTime rt = 0 \<and> estimatedBattery rt = 0"
proof -
  let ?alg = "case algorithmOption of None \<Rightarrow> ''nearest_neighbor'' | Some a \<Rightarrow> a"
  let ?ds = "filter (\<lambda>d. drone_status d = ''idle'' \<and> batteryLevel d > 20) drones"
  let ?os = "filter (\<lambda>order. status order = ''pending'') os"
  let ?as = "fst (assignOrderGroupsToDrones (fst (groupOrdersForOptimalDelivery ?os ?ds)) ?ds)"
  obtain res r' where o: "optimizeAssignments ?as ?alg r = (res, r')"
    by (cases "optimizeAssignments ?as ?alg r")
  from assms o have "res = Inr routes"
    by (auto simp: optimizeDeliveryRoutes_def Let_def split: if_splits sum.splits)
  moreover have "\<forall>a \<in> set ?as. a_route a = None"
    by (simp add: assignOrderGroupsToDrones_def Let_def assignLoop_no_route)
  ultimately show ?thesis
    using o optimizeAssignments_estimates[of ?as ?alg r routes r'] by simp
qed

lemma nearestNeighborRoute_single:
  "nearestNeighborRoute [p] s = [s, p, s]"
proof -
  have "firstMinIndex (map (calculateDistance s) [p]) = 0"
    by (simp add: firstMinIndex_def)
  from greedyVisit_step[OF this, of 0] have "greedyVisit (Suc 0) s [p] = [p]"
    by simp
  then show ?thesis
    using nearestNeighborRoute_body[of "[p]" s] by simp
qed

lemma pass_drone1_order1:
  "optimizeDeliveryRoutes [drone1] [order1] None (\<lambda>n. 0)
     = Success
         [\<lparr>r_drone = drone1, r_orders = [order1],
           r_route = [drone_location drone1,
                      (location order1)\<lparr>orderId := Some (order_id order1)\<rparr>,
                      drone_location drone1],
           estimatedTime = 0, estimatedBattery = 0\<rparr>]
         \<lparr>totalRoutes = 1, totalOrders = 1, totalDistance = 0, averageTime = 0,
          efficiency = PosInfinity, utilization = 1\<rparr>
         ''nearest_neighbor''"
proof -
  have fd: "filter (\<lambda>d. drone_status d = ''idle'' \<and> batteryLevel d > 20) [drone1] = [drone1]"
    by (simp add: drone1_def)
  have fo: "filter (\<lambda>order. status order = ''pending'') [order1] = [order1]"
    by (simp add: order1_def)
  have g: "fst (groupOrdersForOptimalDelivery [order1] [drone1]) = [[order1]]"
    by (simp add: groupOrdersForOptimalDelivery_def Let_def sortDescending_def)
  have a: "fst (assignOrderGroupsToDrones [[order1]] [drone1])
             = [\<lparr>a_drone = drone1, a_orders = [order1], a_route = None\<rparr>]"
    by (simp add: assignOrderGroupsToDrones_def Let_def sortDescending_def findBest_order1_drone1)
  have o: "fst (optimizeAssignments [\<lparr>a_drone = drone1, a_orders = [order1], a_route = None\<rparr>]
                  ''nearest_neighbor'' (\<lambda>n. 0))
             = Inr [\<lparr>r_drone = drone1, r_orders = [order1],
                     r_route = [drone_location drone1,
                                (location order1)\<lparr>orderId := Some (order_id order1)\<rparr>,
                                drone_location drone1],
                     estimatedTime = 0, estimatedBattery = 0\<rparr>]"
    by (simp add: calculateOptimalRoute_def Let_def nearestNeighborRoute_single
          calculateRouteTime_def calculateBatteryConsumption_def)
  have s: "calculateOptimizationStats
             [\<lparr>r_drone = drone1, r_orders = [order1],
               r_route = [drone_location drone1,
                          (location order1)\<lparr>orderId := Some (order_id order1)\<rparr>,
                          drone_location drone1],
               estimatedTime = 0, estimatedBattery = 0\<rparr>]
           = \<lparr>totalRoutes = 1, totalOrders = 1, totalDistance = 0, averageTime = 0,
              efficiency = PosInfinity, utilization = 1\<rparr>"
    by (simp add: calculateOptimizationStats_def Let_def mathRound_def)
  show ?thesis
    unfolding optimizeDeliveryRoutes_def Let_def option.case fd fo g a o sum.case s by simp
qed

text \<open>
  Witness for C10: the first drone and the first order of the test suite, with the
  default algorithm. The pass succeeds with one route, whose two estimates are 0.
\<close>

theorem optimizeDeliveryRoutes_estimates_zero_witness:
  "optimizeDeliveryRoutes [drone1] [order1] None (\<lambda>n. 0)
     = Success
         [\<lparr>r_drone = drone1, r_orders = [order1],
           r_route = [drone_location drone1,
                      (location order1)\<lparr>orderId := Some (order_id order1)\<rparr>,
                      drone_location drone1],
           estimatedTime = 0, estimatedBattery = 0\<rparr>]
         \<lparr>totalRoutes = 1, totalOrders = 1, totalDistance = 0, averageTime = 0,
          efficiency = PosInfinity, utilization = 1\<rparr>
         ''nearest_neighbor'' \<and>
   list_all (\<lambda>rt. estimatedTime rt = 0 \<and> estimatedBattery rt = 0)
     [\<lparr>r_drone = drone1, r_orders = [order1],
       r_route = [drone_location drone1,
                  (location order1)\<lparr>orderId := Some (order_id order1)\<rparr>,
                  drone_location drone1],
       estimatedTime = 0, estimatedBattery = 0\<rparr>]"
  using optimizeDeliveryRoutes_estimates_zero[OF pass_drone1_order1] pass_drone1_order1
  by (simp add: list_all_iff)
section \<open>Statistics\<close>

lemma foldl_add_nat: "foldl (\<lambda>sum x. sum + f x) (a::nat) xs = a + sum_list (map f xs)"
  by (induction xs arbitrary: a) simp_all

lemma foldl_add_real: "foldl (\<lambda>sum x. sum + f x) (a::real) xs = a + sum_list (map f xs)"
  by (induction xs arbitrary: a) simp_all

lemma sum_list_half: "sum_list (map (\<lambda>x. f x / 2) xs) = sum_list (map f xs) / (2::real)"
  by (induction xs) (simp_all add: add_divide_distrib)


text \<open>
  C7 (amended). The statistics of a batch of routes: the total task count is the sum of
  the order counts; the total distance is the sum of the battery estimates divided by 2,
  rounded to two decimals; the efficiency is 100 times the task count divided by the
  unrounded total distance (0 for no task, \<open>Infinity\<close> for a zero distance); the
  utilization is the task count divided by the number of routes (0 for no route).
\<close>

theorem calculateOptimizationStats_formulas:
  "totalOrders (calculateOptimizationStats routes) = sum_list (map (\<lambda>rt. length (r_orders rt)) routes) \<and>
   totalDistance (calculateOptimizationStats routes)
     = mathRound ((sum_list (map estimatedBattery routes) / 2) * 100) / 100 \<and>
   efficiency (calculateOptimizationStats routes)
     = (if sum_list (map (\<lambda>rt. length (r_orders rt)) routes) > 0
        then (if sum_list (map estimatedBattery routes) / 2 = 0 then PosInfinity
              else Finite ((real (sum_list (map (\<lambda>rt. length (r_orders rt)) routes))
                              / (sum_list (map estimatedBattery routes) / 2)) * 100))
        else Finite 0) \<and>
   utilization (calculateOptimizationStats routes)
     = (if routes = [] then 0
        else real (sum_list (map (\<lambda>rt. length (r_orders rt)) routes)) / real (length routes))"
  by (simp add: calculateOptimizationStats_def Let_def foldl_add_nat foldl_add_real sum_list_half)


text \<open>
  Counterexample to C7 as stated: one route with one order and a battery estimate of
  0.01. The summed battery cost divided by 2 is 0.005 and tasks divided by that distance
  is 200; the statistics report the distance 0.01 and the efficiency 20000.
\<close>

theorem calculateOptimizationStats_counterexample:
  "totalDistance (calculateOptimizationStats
      [\<lparr>r_drone = drone1, r_orders = [order1], r_route = [], estimatedTime = 60,
        estimatedBattery = 1 / 100\<rparr>]) = 1 / 100 \<and>
   (1 / 100) / 2 \<noteq> (1 / 100 :: real) \<and>
   efficiency (calculateOptimizationStats
      [\<lparr>r_drone = drone1, r_orders = [order1], r_route = [], estimatedTime = 60,
        estimatedBattery = 1 / 100\<rparr>]) = Finite 20000 \<and>
   Finite (1 / ((1 / 100) / 2)) \<noteq> Finite 20000"
  by (simp add: calculateOptimizationStats_def Let_def mathRound_def)

section \<open>Fleet sizing\<close>





section \<open>Base placement: the fault at the return\<close>

lemma initialCentroids_ok:
  assumes "points \<noteq> []"
  shows "validRandom r \<Longrightarrow>
         \<exists>centroids r'. initialCentroids k points r = (Inr centroids, r') \<and> length centroids = k"
proof (induction k arbitrary: r)
  case 0
  then show ?case by simp
next
  case (Suc k)
  obtain j r1 where j: "randomIndex (length points) r = (j, r1)"
    by (cases "randomIndex (length points) r")
  from randomIndex_valid[OF Suc.prems j] assms have lt: "j < length points" and v: "validRandom r1"
    by auto
  from Suc.IH[OF v] obtain cs r2 where "initialCentroids k points r1 = (Inr cs, r2)" "length cs = k"
    by blast
  with j lt show ?case by simp
qed

lemma length_updateCentroids:
  "length (fst (updateCentroids k clusters centroids)) = length centroids"
proof -
  have "length (fst (fold (\<lambda>i (cs, changed).
             if length (clusters ! i) > 0
             then let newCentroid = calculateCenterLocation (clusters ! i)
                  in if calculateDistance (cs ! i) newCentroid > 1 / 10
                     then (cs[i := newCentroid], True)
                     else (cs, changed)
             else (cs, changed)) js s)) = length (fst s)" for js s
    by (induction js arbitrary: s) (auto simp: Let_def split: prod.splits)
  then show ?thesis by (simp add: updateCentroids_def)
qed

lemma kMeansLoop_returns:
  "centroids \<noteq> [] \<Longrightarrow>
   \<exists>centroids' iterations'.
      kMeansLoop k points centroids changed iterations = Inr (centroids', iterations')
      \<and> length centroids' = length centroids"
proof (induction k points centroids changed iterations rule: kMeansLoop.induct)
  case (1 k points centroids changed iterations)
  show ?case
  proof (cases "changed \<and> iterations < 100")
    case False
    then show ?thesis by (subst kMeansLoop.simps) auto
  next
    case True
    let ?cl = "fold (\<lambda>p clusters. let c = nearestCentroid p centroids
                        in clusters[c := clusters ! c @ [p]]) points (replicate k [])"
    have a: "assignClusters k points centroids = Inr ?cl"
      using "1.prems" by (simp add: assignClusters_def)
    obtain cs' ch' where u: "updateCentroids k ?cl centroids = (cs', ch')"
      by (cases "updateCentroids k ?cl centroids")
    have len: "length cs' = length centroids"
      using length_updateCentroids[of k ?cl centroids] u by simp
    with "1.prems" have ne: "cs' \<noteq> []" by auto
    from "1.IH"[OF True a u[symmetric] ne] len
    obtain c2 i2 where "kMeansLoop k points cs' ch' (iterations + 1) = Inr (c2, i2)"
      "length c2 = length centroids" by auto
    with True a u show ?thesis by (subst kMeansLoop.simps) simp
  qed
qed

lemma kMeansBasePlacement_raises:
  assumes "points \<noteq> []" and "0 < k" and "validRandom r"
  shows "kMeansBasePlacement points k r = Inl ReferenceError"
proof -
  from initialCentroids_ok[OF assms(1,3), of k]
  obtain cs r' where i: "initialCentroids k points r = (Inr cs, r')" and l: "length cs = k"
    by blast
  with assms(2) have "cs \<noteq> []" by auto
  from kMeansLoop_returns[OF this, of k points True 0]
  obtain c2 i2 where "kMeansLoop k points cs True 0 = Inr (c2, i2)" by blast
  with i show ?thesis by (simp add: kMeansBasePlacement_def)
qed

text \<open>
  C2. On the points and the \<open>k = 2\<close> of the test \<open>should perform k-means clustering\<close>
  (with every random draw 0), \<open>kMeansBasePlacement\<close> raises a \<open>ReferenceError\<close> and
  returns no result. By \<open>kMeansBasePlacement_raises\<close> it does so on every non-empty
  point set, every \<open>k > 0\<close> and every sequence of random draws.
\<close>

theorem kMeansBasePlacement_reference_error:
  "kMeansBasePlacement
     [\<lparr>px = 1, py = 1, orderId = None, ident = None\<rparr>,
      \<lparr>px = 2, py = 2, orderId = None, ident = None\<rparr>,
      \<lparr>px = 10, py = 10, orderId = None, ident = None\<rparr>,
      \<lparr>px = 11, py = 11, orderId = None, ident = None\<rparr>] 2 (\<lambda>n. 0)
   = Inl ReferenceError"
  by (rule kMeansBasePlacement_raises) (simp_all add: validRandom_zero)

section \<open>Route refinement: permutations\<close>

subsection \<open>Simulated annealing\<close>


lemma length_swap [simp]: "length (swap i j a) = length a"
  by (simp add: swap_def)






subsection \<open>Order crossover\<close>




lemma finite_openSlots [simp]: "finite (openSlots start end len ci)"
  by (simp add: openSlots_def)










subsection \<open>Genetic algorithm\<close>
















subsection \<open>Points with one key\<close>
















end
